theory Spec2Isabelle
  imports Main "HOL-Library.Sublist"
begin

section \<open>Characters and character classes\<close>

text \<open>
  The shader source is a Python \<open>str\<close>; it is modelled as a \<open>string\<close> (a list of
  8-bit characters), one \<open>char\<close> per code point, so the model covers ASCII source text.
  The classes are those of Python's \<open>re\<close> on ASCII characters: \<open>\d\<close> is \<open>[0-9]\<close>,
  \<open>\w\<close> is \<open>[a-zA-Z0-9_]\<close> and \<open>\s\<close> is the characters for which \<open>str.isspace\<close>
  holds (tab, line feed, vertical tab, form feed, carriage return, the four separators
  0x1C..0x1F and the space).
\<close>

definition newline :: char where
  "newline = CHR 0x0A"

definition is_digit :: "char \<Rightarrow> bool" where
  "is_digit c = (let n = (of_char c :: nat) in 48 \<le> n \<and> n \<le> 57)"

definition is_word :: "char \<Rightarrow> bool" where
  "is_word c = (let n = (of_char c :: nat) in
     (48 \<le> n \<and> n \<le> 57) \<or> (65 \<le> n \<and> n \<le> 90) \<or> n = 95 \<or> (97 \<le> n \<and> n \<le> 122))"

definition is_space :: "char \<Rightarrow> bool" where
  "is_space c = (let n = (of_char c :: nat) in (9 \<le> n \<and> n \<le> 13) \<or> (28 \<le> n \<and> n \<le> 32))"

text \<open>The dot: with \<open>re.DOTALL\<close> every character, without it every character but the line feed.\<close>

definition any_char :: "char \<Rightarrow> bool" where
  "any_char c = True"

definition not_newline :: "char \<Rightarrow> bool" where
  "not_newline c = (c \<noteq> newline)"

text \<open>The class \<open>[^\r\n]\<close> of the comment pattern.\<close>

definition not_cr_lf :: "char \<Rightarrow> bool" where
  "not_cr_lf c = (c \<noteq> CHR 0x0D \<and> c \<noteq> CHR 0x0A)"

text \<open>The class \<open>[\w,\[\] ]\<close> of the declaration pattern (the blank of a class stays a blank
  under \<open>re.VERBOSE\<close>).\<close>

definition is_names :: "char \<Rightarrow> bool" where
  "is_names c = (is_word c \<or> c = CHR '','' \<or> c = CHR ''['' \<or> c = CHR '']'' \<or> c = CHR '' '')"

section \<open>Regular expressions as Python's \<open>re\<close> matches them\<close>

text \<open>
  The patterns of \<open>shader.py\<close> use literals, classes, greedy \<open>*\<close> and \<open>+\<close> and lazy \<open>*?\<close>
  over a single class, a single character of a class, the greedy \<open>?\<close>, alternation,
  capturing groups and \<open>$\<close> under \<open>re.MULTILINE\<close>. The matcher is the backtracking one: \<open>ms r s c\<close> lists, in the order the
  engine tries them, every way the pattern \<open>r\<close> matches a prefix of \<open>s\<close>, each as the input
  left over and the groups captured so far; the match \<open>re\<close> reports is the first of the list.
\<close>

datatype regex =
    Lit string
  | One "char \<Rightarrow> bool"
  | Many "char \<Rightarrow> bool"
  | Many1 "char \<Rightarrow> bool"
  | Few "char \<Rightarrow> bool"
  | Opt regex
  | Alt regex regex
  | Seq regex regex
  | Grp nat regex
  | Eol

type_synonym caps = "(nat \<times> string) list"

text \<open>Greedy repetition of a class: the longest run first, then one character less each time.\<close>

fun many :: "(char \<Rightarrow> bool) \<Rightarrow> string \<Rightarrow> string list" where
  "many p [] = [[]]"
| "many p (x # xs) = (if p x then many p xs @ [x # xs] else [x # xs])"

fun many1 :: "(char \<Rightarrow> bool) \<Rightarrow> string \<Rightarrow> string list" where
  "many1 p [] = []"
| "many1 p (x # xs) = (if p x then many p xs else [])"

text \<open>Lazy repetition of a class: the empty run first, then one character more each time.\<close>

fun few :: "(char \<Rightarrow> bool) \<Rightarrow> string \<Rightarrow> string list" where
  "few p [] = [[]]"
| "few p (x # xs) = (x # xs) # (if p x then few p xs else [])"

fun ms :: "regex \<Rightarrow> string \<Rightarrow> caps \<Rightarrow> (string \<times> caps) list" where
  "ms (Lit l) s c = (if take (length l) s = l then [(drop (length l) s, c)] else [])"
| "ms (One p) s c = (case s of [] \<Rightarrow> [] | x # xs \<Rightarrow> if p x then [(xs, c)] else [])"
| "ms (Many p) s c = map (\<lambda>t. (t, c)) (many p s)"
| "ms (Many1 p) s c = map (\<lambda>t. (t, c)) (many1 p s)"
| "ms (Few p) s c = map (\<lambda>t. (t, c)) (few p s)"
| "ms (Opt r) s c = ms r s c @ [(s, c)]"
| "ms (Alt r1 r2) s c = ms r1 s c @ ms r2 s c"
| "ms (Seq r1 r2) s c = concat (map (\<lambda>(t, d). ms r2 t d) (ms r1 s c))"
| "ms (Grp n r) s c = map (\<lambda>(t, d). (t, (n, take (length s - length t) s) # d)) (ms r s c)"
| "ms Eol s c = (case s of [] \<Rightarrow> [(s, c)] | x # _ \<Rightarrow> if x = newline then [(s, c)] else [])"

definition seq :: "regex list \<Rightarrow> regex" where
  "seq rs = foldr Seq rs (Lit [])"

text \<open>A match object: the text matched and the groups that took part in the match.\<close>

record rmatch =
  whole :: string
  groups :: caps

definition group :: "rmatch \<Rightarrow> nat \<Rightarrow> string option" where
  "group m n = map_of (groups m) n"

text \<open>\<open>pattern.match\<close> at the start of \<open>s\<close>: the match and the input after it.\<close>

definition match_at :: "regex \<Rightarrow> string \<Rightarrow> (rmatch \<times> string) option" where
  "match_at r s = (case ms r s [] of
       [] \<Rightarrow> None
     | (t, c) # _ \<Rightarrow> Some (\<lparr>whole = take (length s - length t) s, groups = c\<rparr>, t))"

definition re_match :: "regex \<Rightarrow> string \<Rightarrow> rmatch option" where
  "re_match r s = map_option fst (match_at r s)"

text \<open>
  The scan shared by \<open>re.finditer\<close> and \<open>re.sub\<close>: the leftmost match from the current
  position, then on from its end. The input is cut into the characters no match covers
  and the matches. None of the patterns below matches the empty string, so the scan
  never meets an empty match; on one the function steps over a character.
\<close>

datatype seg = Gap char | Hit rmatch

function scan :: "regex \<Rightarrow> string \<Rightarrow> seg list" where
  "scan r [] = []"
| "scan r (x # xs) = (case match_at r (x # xs) of
       None \<Rightarrow> Gap x # scan r xs
     | Some (m, t) \<Rightarrow>
         if length t < length (x # xs) then Hit m # scan r t
         else Hit m # Gap x # scan r xs)"
  by pat_completeness auto
termination
  by (relation "measure (\<lambda>(r, s). length s)") auto

fun hits :: "seg list \<Rightarrow> rmatch list" where
  "hits [] = []"
| "hits (Gap x # gs) = hits gs"
| "hits (Hit m # gs) = m # hits gs"

definition finditer :: "regex \<Rightarrow> string \<Rightarrow> rmatch list" where
  "finditer r s = hits (scan r s)"

fun join :: "(rmatch \<Rightarrow> string) \<Rightarrow> seg list \<Rightarrow> string" where
  "join f [] = []"
| "join f (Gap x # gs) = x # join f gs"
| "join f (Hit m # gs) = f m @ join f gs"

definition re_sub :: "regex \<Rightarrow> (rmatch \<Rightarrow> string) \<Rightarrow> string \<Rightarrow> string" where
  "re_sub r f s = join f (scan r s)"

section \<open>The comment stripper\<close>

text \<open>
  \<^verbatim>\<open>pattern = r"(\".*?\"|\'.*?\')|(/\*.*?\*/|//[^\r\n]*$)"\<close>, compiled with
  \<open>re.MULTILINE|re.DOTALL\<close>.
\<close>

definition comment_pattern :: regex where
  "comment_pattern =
     Alt (Grp 1 (Alt (seq [Lit [CHR 0x22], Few any_char, Lit [CHR 0x22]])
                     (seq [Lit [CHR 0x27], Few any_char, Lit [CHR 0x27]])))
         (Grp 2 (Alt (seq [Lit ''/*'', Few any_char, Lit ''*/''])
                     (seq [Lit ''//'', Many not_cr_lf, Eol])))"

text \<open>When the function given to \<open>re.sub\<close> returns \<open>None\<close>, nothing is put in the place of the
  match.\<close>

definition do_replace :: "rmatch \<Rightarrow> string" where
  "do_replace m = (if group m 2 \<noteq> None then []
                   else (case group m 1 of Some t \<Rightarrow> t | None \<Rightarrow> []))"

definition remove_comments :: "string \<Rightarrow> string" where
  "remove_comments s = re_sub comment_pattern do_replace s"

section \<open>Numbers in text\<close>

text \<open>\<open>int(text)\<close> of a run of decimal digits, and the \<open>%d\<close> of a natural number.\<close>

definition digit_val :: "char \<Rightarrow> nat" where
  "digit_val c = of_char c - 48"

definition int_of :: "string \<Rightarrow> nat" where
  "int_of s = foldl (\<lambda>a c. 10 * a + digit_val c) 0 s"

definition digit_char :: "nat \<Rightarrow> char" where
  "digit_char n = char_of (48 + n)"

fun dec :: "nat \<Rightarrow> string" where
  "dec n = (if n < 10 then [digit_char n] else dec (n div 10) @ [digit_char (n mod 10)])"

declare dec.simps [simp del]

section \<open>Errors\<close>

text \<open>The exceptions the module raises, each with its message; \<open>KeyError\<close> carries the key
  that the type table does not have.\<close>

datatype error =
    RuntimeError string
  | ValueError string
  | KeyError string
  | TypeError string

section \<open>The type table\<close>

text \<open>The constants of the graphics library that \<open>Shader._gtypes\<close> maps the type names to.\<close>

datatype gtype =
    GL_FLOAT | GL_FLOAT_VEC2 | GL_FLOAT_VEC3 | GL_FLOAT_VEC4
  | GL_INT | GL_INT_VEC2 | GL_INT_VEC3 | GL_INT_VEC4
  | GL_BOOL | GL_BOOL_VEC2 | GL_BOOL_VEC3 | GL_BOOL_VEC4
  | GL_FLOAT_MAT2 | GL_FLOAT_MAT3 | GL_FLOAT_MAT4
  | GL_SAMPLER_1D | GL_SAMPLER_2D

definition gtypes :: "string \<Rightarrow> gtype option" where
  "gtypes = map_of
     [(''float'', GL_FLOAT),
      (''vec2'', GL_FLOAT_VEC2),
      (''vec3'', GL_FLOAT_VEC3),
      (''vec4'', GL_FLOAT_VEC4),
      (''int'', GL_INT),
      (''ivec2'', GL_INT_VEC2),
      (''ivec3'', GL_INT_VEC3),
      (''ivec4'', GL_INT_VEC4),
      (''bool'', GL_BOOL),
      (''bvec2'', GL_BOOL_VEC2),
      (''bvec3'', GL_BOOL_VEC3),
      (''bvec4'', GL_BOOL_VEC4),
      (''mat2'', GL_FLOAT_MAT2),
      (''mat3'', GL_FLOAT_MAT3),
      (''mat4'', GL_FLOAT_MAT4),
      (''sampler1D'', GL_SAMPLER_1D),
      (''sampler2D'', GL_SAMPLER_2D)]"

section \<open>The shader object\<close>

datatype shader_kind = GL_VERTEX_SHADER | GL_FRAGMENT_SHADER

text \<open>The fields \<open>_target\<close>, \<open>_code\<close>, \<open>_source\<close> of \<open>Shader\<close> and \<open>_handle\<close>, \<open>_id\<close>,
  \<open>_need_update\<close> that it uses of \<open>GLObject\<close>; \<open>None\<close> is Python's.\<close>

record shader =
  sh_target :: shader_kind
  sh_code :: "string option"
  sh_source :: "string option"
  sh_handle :: int
  sh_id :: nat
  sh_need_update :: bool

text \<open>\<open>os.path.basename\<close>: what follows the last slash.\<close>

fun basename :: "string \<Rightarrow> string" where
  "basename [] = []"
| "basename (x # xs) = (if CHR ''/'' \<in> set (x # xs) then basename xs else x # xs)"

text \<open>The setter of \<open>code\<close>. The file system is a map from the paths of the regular files
  to their text.\<close>

definition set_code :: "(string \<rightharpoonup> string) \<Rightarrow> string \<Rightarrow> shader \<Rightarrow> shader" where
  "set_code fs c sh =
     (case fs c of
        Some text \<Rightarrow> sh\<lparr>sh_code := Some text, sh_source := Some (basename c), sh_need_update := True\<rparr>
      | None \<Rightarrow> sh\<lparr>sh_code := Some c, sh_source := Some ''<string>'', sh_need_update := True\<rparr>)"

text \<open>\<open>__repr__\<close> of \<open>VertexShader\<close> and \<open>FragmentShader\<close>.\<close>

definition str_of :: "string option \<Rightarrow> string" where
  "str_of v = (case v of None \<Rightarrow> ''None'' | Some t \<Rightarrow> t)"

definition repr :: "shader \<Rightarrow> string" where
  "repr sh =
     (case sh_target sh of
        GL_VERTEX_SHADER \<Rightarrow> ''Vertex Shader '' @ dec (sh_id sh) @ '' ('' @ str_of (sh_source sh) @ '')''
      | GL_FRAGMENT_SHADER \<Rightarrow> ''Fragment Shader '' @ dec (sh_id sh) @ '' ('' @ str_of (sh_source sh) @ '')'')"

section \<open>Uniforms and attributes\<close>

text \<open>
  A group that a pattern always matches is read with \<open>group_text\<close>; the patterns below
  give every match the groups read this way.
\<close>

definition group_text :: "rmatch \<Rightarrow> nat \<Rightarrow> string" where
  "group_text m n = (case group m n of Some t \<Rightarrow> t | None \<Rightarrow> [])"

text \<open>
  \<^verbatim>\<open>\s*uniform \s+(?P<type>\w+) \s+(?P<names>[\w,\[\] ]+);\<close> under \<open>re.VERBOSE\<close>; the keyword
  is \<open>uniform\<close> in \<open>uniforms\<close> and \<open>attribute\<close> in \<open>attributes\<close>. Group 1 is \<open>type\<close>, group 2
  is \<open>names\<close>.
\<close>

definition re_type :: "string \<Rightarrow> regex" where
  "re_type keyword =
     seq [Many is_space, Lit keyword,
          Many1 is_space, Grp 1 (Many1 is_word),
          Many1 is_space, Grp 2 (Many1 is_names), Lit '';'']"

text \<open>\<^verbatim>\<open>(?P<name>\w+) \s*(\[(?P<size>\d+)\])?\<close>: group 1 is \<open>name\<close>, group 3 is \<open>size\<close>.\<close>

definition re_names :: regex where
  "re_names =
     seq [Grp 1 (Many1 is_word),
          Many is_space, Opt (Grp 2 (seq [Lit ''['', Grp 3 (Many1 is_digit), Lit '']'']))]"

type_synonym entry = "string \<times> gtype"

text \<open>The inner loop, over the names of one declaration; \<open>acc\<close> is the list built so far.\<close>

fun names_loop :: "gtype \<Rightarrow> rmatch list \<Rightarrow> entry list \<Rightarrow> error + entry list" where
  "names_loop g [] acc = Inr acc"
| "names_loop g (m # rest) acc =
     (case group m 3 of
        None \<Rightarrow> names_loop g rest (acc @ [(group_text m 1, g)])
      | Some sz \<Rightarrow>
          if int_of sz = 0 then Inl (RuntimeError ''Size of uniform array cannot be zero'')
          else names_loop g rest
                 (acc @ map (\<lambda>i. (group_text m 1 @ ''['' @ dec i @ '']'', g)) [0 ..< int_of sz]))"

text \<open>The outer loop, over the declarations.\<close>

fun decl_loop :: "rmatch list \<Rightarrow> entry list \<Rightarrow> error + entry list" where
  "decl_loop [] acc = Inr acc"
| "decl_loop (m # rest) acc =
     (case gtypes (group_text m 1) of
        None \<Rightarrow> Inl (KeyError (group_text m 1))
      | Some g \<Rightarrow>
          (case names_loop g (finditer re_names (group_text m 2)) acc of
             Inl e \<Rightarrow> Inl e
           | Inr acc' \<Rightarrow> decl_loop rest acc'))"

text \<open>The bodies of \<open>uniforms\<close> and \<open>attributes\<close> are the same text but for the keyword of
  the pattern.\<close>

definition declarations :: "string \<Rightarrow> shader \<Rightarrow> error + entry list" where
  "declarations keyword sh =
     (case sh_code sh of
        None \<Rightarrow> Inl (TypeError ''expected string or bytes-like object'')
      | Some c \<Rightarrow> decl_loop (finditer (re_type keyword) (remove_comments c)) [])"

definition uniforms :: "shader \<Rightarrow> error + entry list" where
  "uniforms sh = declarations ''uniform'' sh"

definition attributes :: "shader \<Rightarrow> error + entry list" where
  "attributes sh = declarations ''attribute'' sh"

section \<open>Driver diagnostics\<close>

text \<open>The three formats, without flags: the dot stops at a line feed.\<close>

definition re_nvidia :: regex where
  "re_nvidia = seq [Grp 1 (Many1 is_digit), Lit ''('', Grp 2 (Many1 is_digit), Lit ''):'',
                    One is_space, Grp 3 (Many not_newline)]"

definition re_ati :: regex where
  "re_ati = seq [Lit ''ERROR:'', One is_space, Grp 1 (Many1 is_digit), Lit '':'',
                 Grp 2 (Many1 is_digit), Lit '':'', One is_space, Grp 3 (Many not_newline)]"

definition re_nouveau :: regex where
  "re_nouveau = seq [Grp 1 (Many1 is_digit), Lit '':'', Grp 2 (Many1 is_digit), Lit ''('',
                     Grp 3 (Many1 is_digit), Lit ''):'', One is_space, Grp 4 (Many not_newline)]"

definition parse_error :: "string \<Rightarrow> error + (int \<times> string)" where
  "parse_error err =
     (case re_match re_nvidia err of
        Some m \<Rightarrow> Inr (int (int_of (group_text m 2)), group_text m 3)
      | None \<Rightarrow>
     (case re_match re_ati err of
        Some m \<Rightarrow> Inr (int (int_of (group_text m 2)), group_text m 3)
      | None \<Rightarrow>
     (case re_match re_nouveau err of
        Some m \<Rightarrow> Inr (int (int_of (group_text m 2)), group_text m 4)
      | None \<Rightarrow> Inl (ValueError ''Unknown GLSL error format''))))"

section \<open>Error display\<close>

text \<open>\<open>str.split('\n')\<close>.\<close>

fun split_lines :: "string \<Rightarrow> string list" where
  "split_lines [] = [[]]"
| "split_lines (x # xs) =
     (if x = newline then [] # split_lines xs
      else (case split_lines xs of [] \<Rightarrow> [[x]] | l # ls \<Rightarrow> (x # l) # ls))"

text \<open>The slice \<open>xs[i:j]\<close>: a negative bound counts from the end, and both are clamped.\<close>

definition slice_bound :: "nat \<Rightarrow> int \<Rightarrow> nat" where
  "slice_bound n i = (if i < 0 then nat (max 0 (int n + i)) else min (nat i) n)"

definition py_slice :: "'a list \<Rightarrow> int \<Rightarrow> int \<Rightarrow> 'a list" where
  "py_slice xs i j = take (slice_bound (length xs) j - slice_bound (length xs) i)
                          (drop (slice_bound (length xs) i) xs)"

text \<open>\<open>'%03d' % n\<close>: at least three characters, zeros after the sign.\<close>

definition fmt_03d :: "int \<Rightarrow> string" where
  "fmt_03d n =
     (if n < 0 then CHR ''-'' # replicate (2 - length (dec (nat (- n)))) CHR ''0'' @ dec (nat (- n))
      else replicate (3 - length (dec (nat n))) CHR ''0'' @ dec (nat n))"

definition fmt_line :: "int \<Rightarrow> string \<Rightarrow> string" where
  "fmt_line n line = '' '' @ fmt_03d n @ '' '' @ line"

text \<open>What the loop prints for one line of the window.\<close>

definition show_line :: "int \<Rightarrow> int \<Rightarrow> nat \<times> string \<Rightarrow> string list" where
  "show_line lineno start il =
     (case il of (i, line) \<Rightarrow>
        if int i + start = lineno then [fmt_line (int i + start) line]
        else if length line \<noteq> 0 then [fmt_line (int i + start) line]
        else [])"

text \<open>\<open>_print_error\<close> on the code \<open>c\<close> of the shader: the lines printed, in order.\<close>

definition print_error :: "shader \<Rightarrow> string \<Rightarrow> string \<Rightarrow> int \<Rightarrow> string list" where
  "print_error sh c err lineno =
     (let lines = split_lines c;
          start = max 0 (lineno - 3);
          end = min (int (length lines)) (lineno + 3)
      in [''Error in '' @ repr sh, '' -> '' @ err, []]
         @ (if start > 0 then ['' ...''] else [])
         @ concat (map (show_line lineno start) (enumerate 0 (py_slice lines start end)))
         @ (if end < int (length lines) then ['' ...''] else [])
         @ [[]])"

section \<open>Compilation\<close>

text \<open>
  What \<open>_create\<close> does to the world, in order: the calls of the graphics library, the
  debug message and the lines printed. The driver's answers are parameters.
\<close>

datatype effect =
    GlCreateShader shader_kind
  | GlShaderSource int string
  | GlCompileShader int
  | GlGetShaderiv int
  | GlGetShaderInfoLog int
  | LogDebug string
  | Print string

record driver =
  new_handle :: int
  compile_status :: bool
  info_log :: string

definition compile_source :: "driver \<Rightarrow> shader \<Rightarrow> string \<Rightarrow> effect list
    \<Rightarrow> (error + unit) \<times> effect list \<times> shader" where
  "compile_source drv sh c es =
     (let es1 = es @ [GlShaderSource (sh_handle sh) c, LogDebug ''GPU: Creating shader'',
                      GlCompileShader (sh_handle sh), GlGetShaderiv (sh_handle sh)]
      in if \<not> compile_status drv then
           (case parse_error (info_log drv) of
              Inl e \<Rightarrow> (Inl e, es1 @ [GlGetShaderInfoLog (sh_handle sh)], sh)
            | Inr (lineno, mesg) \<Rightarrow>
                (Inl (RuntimeError ''Shader compilation error''),
                 es1 @ [GlGetShaderInfoLog (sh_handle sh)]
                     @ map Print (print_error sh c mesg (lineno - 1)), sh))
         else (Inr (), es1, sh))"

definition create :: "driver \<Rightarrow> shader \<Rightarrow> (error + unit) \<times> effect list \<times> shader" where
  "create drv sh =
     (case sh_code sh of
        None \<Rightarrow> (Inl (RuntimeError ''No code has been given''), [], sh)
      | Some c \<Rightarrow>
          if c = [] then (Inl (RuntimeError ''No code has been given''), [], sh)
          else if sh_handle sh \<le> 0 then
            (let sh1 = sh\<lparr>sh_handle := new_handle drv\<rparr>
             in if sh_handle sh1 \<le> 0
                then (Inl (RuntimeError ''Cannot create shader object''),
                      [GlCreateShader (sh_target sh)], sh1)
                else compile_source drv sh1 c [GlCreateShader (sh_target sh)])
          else compile_source drv sh c [])"

section \<open>Reading the properties\<close>

text \<open>
  An access to \<open>uniforms\<close> or \<open>attributes\<close> as a step of the shader: the value the property
  gives and the shader after the access. The two bodies assign to no attribute of \<open>self\<close>.
\<close>

definition read_uniforms :: "shader \<Rightarrow> (error + entry list) \<times> shader" where
  "read_uniforms sh = (uniforms sh, sh)"

definition read_attributes :: "shader \<Rightarrow> (error + entry list) \<times> shader" where
  "read_attributes sh = (attributes sh, sh)"

section \<open>The text the stripper keeps\<close>




definition comment_text :: "string \<Rightarrow> bool" where
  "comment_text w = (take 2 w = ''/*'' \<or> (take 2 w = ''//'' \<and> newline \<notin> set w))"


section \<open>Declarations as the extraction meets them\<close>








section \<open>The lines of the error display\<close>



section \<open>The first match along the greedy path\<close>

text \<open>
  Two functions for the proofs. \<open>fails r s\<close> is a sufficient test that \<open>r\<close> matches at the
  start of \<open>s\<close> in no way. \<open>greedy r s c\<close> runs \<open>r\<close> without backtracking, each repetition
  taking what it takes first; when it succeeds its result is the first match of \<open>ms\<close>.
\<close>

fun fails :: "regex \<Rightarrow> string \<Rightarrow> bool" where
  "fails (Lit l) s = (take (length l) s \<noteq> l)"
| "fails (One p) s = (case s of [] \<Rightarrow> True | x # _ \<Rightarrow> \<not> p x)"
| "fails (Many p) s = False"
| "fails (Many1 p) s = (case s of [] \<Rightarrow> True | x # _ \<Rightarrow> \<not> p x)"
| "fails (Few p) s = False"
| "fails (Opt r) s = False"
| "fails (Alt r1 r2) s = (fails r1 s \<and> fails r2 s)"
| "fails (Seq r1 r2) s = fails r1 s"
| "fails (Grp n r) s = fails r s"
| "fails Eol s = (case s of [] \<Rightarrow> False | x # _ \<Rightarrow> x \<noteq> newline)"

fun greedy :: "regex \<Rightarrow> string \<Rightarrow> caps \<Rightarrow> (string \<times> caps) option" where
  "greedy (Lit l) s c = (if take (length l) s = l then Some (drop (length l) s, c) else None)"
| "greedy (One p) s c = (case s of [] \<Rightarrow> None | x # xs \<Rightarrow> if p x then Some (xs, c) else None)"
| "greedy (Many p) s c = Some (dropWhile p s, c)"
| "greedy (Many1 p) s c =
     (case s of [] \<Rightarrow> None | x # xs \<Rightarrow> if p x then Some (dropWhile p xs, c) else None)"
| "greedy (Few p) s c = Some (s, c)"
| "greedy (Opt r) s c =
     (case greedy r s c of Some x \<Rightarrow> Some x | None \<Rightarrow> if fails r s then Some (s, c) else None)"
| "greedy (Alt r1 r2) s c =
     (case greedy r1 s c of Some x \<Rightarrow> Some x
      | None \<Rightarrow> if fails r1 s then greedy r2 s c else None)"
| "greedy (Seq r1 r2) s c =
     (case greedy r1 s c of None \<Rightarrow> None | Some (t, d) \<Rightarrow> greedy r2 t d)"
| "greedy (Grp n r) s c =
     (case greedy r s c of None \<Rightarrow> None
      | Some (t, d) \<Rightarrow> Some (t, (n, take (length s - length t) s) # d))"
| "greedy Eol s c = (case s of [] \<Rightarrow> Some (s, c) | x # _ \<Rightarrow> if x = newline then Some (s, c) else None)"


section \<open>The three formats of a diagnostic\<close>

text \<open>
  The formats as texts: \<open>N(L): message\<close>, \<open>ERROR: S:L: message\<close> and \<open>S:L(C): message\<close>,
  where \<open>N\<close>, \<open>L\<close>, \<open>S\<close> and \<open>C\<close> are runs of digits and one character of white space follows
  the colon.
\<close>

definition digits :: "string \<Rightarrow> bool" where
  "digits n = (n \<noteq> [] \<and> list_all is_digit n)"

definition nvidia_shape :: "string \<Rightarrow> bool" where
  "nvidia_shape e = (\<exists>n l w msg. digits n \<and> digits l \<and> is_space w
      \<and> e = n @ ''('' @ l @ ''):'' @ w # msg)"

definition ati_shape :: "string \<Rightarrow> bool" where
  "ati_shape e = (\<exists>n l w w' msg. digits n \<and> digits l \<and> is_space w \<and> is_space w'
      \<and> e = ''ERROR:'' @ w # n @ '':'' @ l @ '':'' @ w' # msg)"

definition nouveau_shape :: "string \<Rightarrow> bool" where
  "nouveau_shape e = (\<exists>n l k w msg. digits n \<and> digits l \<and> digits k \<and> is_space w
      \<and> e = n @ '':'' @ l @ ''('' @ k @ ''):'' @ w # msg)"


section \<open>Declarations as they are written\<close>
























section \<open>What a pattern consumes and binds\<close>

text \<open>
  Two measures of a pattern for the proofs: the least number of characters a match of
  it consumes, and whether every match of it gives the group \<open>n\<close> a text.
\<close>

fun min_len :: "regex \<Rightarrow> nat" where
  "min_len (Lit l) = length l"
| "min_len (One p) = 1"
| "min_len (Many p) = 0"
| "min_len (Many1 p) = 1"
| "min_len (Few p) = 0"
| "min_len (Opt r) = 0"
| "min_len (Alt r1 r2) = min (min_len r1) (min_len r2)"
| "min_len (Seq r1 r2) = min_len r1 + min_len r2"
| "min_len (Grp n r) = min_len r"
| "min_len Eol = 0"

fun binds :: "nat \<Rightarrow> regex \<Rightarrow> bool" where
  "binds n (Opt r) = False"
| "binds n (Alt r1 r2) = (binds n r1 \<and> binds n r2)"
| "binds n (Seq r1 r2) = (binds n r1 \<or> binds n r2)"
| "binds n (Grp k r) = (k = n \<or> binds n r)"
| "binds n r = False"


section \<open>Compilation without code\<close>

text \<open>
  C9. \<open>_create\<close> on a shader whose code is \<open>None\<close> (never set) or the empty string raises
  \<open>RuntimeError("No code has been given")\<close>, the module's error for a missing source,
  before any call of the graphics library, any log message and any printed line, and
  leaves the shader as it was.
\<close>

theorem create_without_code:
  "sh_code sh = None \<or> sh_code sh = Some [] \<Longrightarrow>
   create drv sh = (Inl (RuntimeError ''No code has been given''), [], sh)"
  by (auto simp: create_def)

theorem create_without_code_witness:
  "create \<lparr>new_handle = 1, compile_status = True, info_log = []\<rparr>
      \<lparr>sh_target = GL_VERTEX_SHADER, sh_code = None, sh_source = None, sh_handle = - 1,
       sh_id = 1, sh_need_update = True\<rparr>
    = (Inl (RuntimeError ''No code has been given''), [],
      \<lparr>sh_target = GL_VERTEX_SHADER, sh_code = None, sh_source = None, sh_handle = - 1,
       sh_id = 1, sh_need_update = True\<rparr>)
   \<and> create \<lparr>new_handle = 1, compile_status = True, info_log = []\<rparr>
      \<lparr>sh_target = GL_FRAGMENT_SHADER, sh_code = Some [], sh_source = Some ''<string>'',
       sh_handle = 4, sh_id = 2, sh_need_update = True\<rparr>
    = (Inl (RuntimeError ''No code has been given''), [],
      \<lparr>sh_target = GL_FRAGMENT_SHADER, sh_code = Some [], sh_source = Some ''<string>'',
       sh_handle = 4, sh_id = 2, sh_need_update = True\<rparr>)"
  using create_without_code [of "\<lparr>sh_target = GL_VERTEX_SHADER, sh_code = None,
       sh_source = None, sh_handle = - 1, sh_id = 1, sh_need_update = True\<rparr>"
       "\<lparr>new_handle = 1, compile_status = True, info_log = []\<rparr>"]
    create_without_code [of "\<lparr>sh_target = GL_FRAGMENT_SHADER, sh_code = Some [],
       sh_source = Some ''<string>'', sh_handle = 4, sh_id = 2, sh_need_update = True\<rparr>"
       "\<lparr>new_handle = 1, compile_status = True, info_log = []\<rparr>"]
  by simp

section \<open>The properties are recomputed on every access\<close>

text \<open>
  C8. Reading \<open>uniforms\<close> (or \<open>attributes\<close>) leaves the shader as it was, so a second
  access gives the same ordered list (or the same error) as the first; the value depends
  on nothing but the code the shader holds, and after the code is replaced it is the
  value for the new code, whatever the shader held before.
\<close>

theorem properties_recomputed:
  "snd (read_uniforms sh) = sh \<and> snd (read_attributes sh) = sh
   \<and> fst (read_uniforms (snd (read_uniforms sh))) = fst (read_uniforms sh)
   \<and> fst (read_attributes (snd (read_attributes sh))) = fst (read_attributes sh)
   \<and> fst (read_uniforms (snd (read_attributes sh))) = fst (read_uniforms sh)
   \<and> (sh_code sh1 = sh_code sh2 \<longrightarrow> uniforms sh1 = uniforms sh2 \<and> attributes sh1 = attributes sh2)
   \<and> uniforms (set_code fs c sh) = uniforms (set_code fs c sh')
   \<and> attributes (set_code fs c sh) = attributes (set_code fs c sh')"
  by (auto simp: read_uniforms_def read_attributes_def uniforms_def attributes_def
      declarations_def set_code_def split: option.splits)

lemma two_declarations_eval:
  "decl_loop (finditer (re_type ''uniform'')
       (remove_comments ''uniform vec2 a, b; uniform float c[2];'')) []
     = Inr [(''a'', GL_FLOAT_VEC2), (''b'', GL_FLOAT_VEC2), (''c[0]'', GL_FLOAT), (''c[1]'', GL_FLOAT)]"
  by code_simp

theorem properties_recomputed_witness:
  "uniforms \<lparr>sh_target = GL_VERTEX_SHADER,
       sh_code = Some ''uniform vec2 a, b; uniform float c[2];'', sh_source = Some ''<string>'',
       sh_handle = - 1, sh_id = 1, sh_need_update = True\<rparr>
     = Inr [(''a'', GL_FLOAT_VEC2), (''b'', GL_FLOAT_VEC2), (''c[0]'', GL_FLOAT), (''c[1]'', GL_FLOAT)]
   \<and> uniforms \<lparr>sh_target = GL_FRAGMENT_SHADER,
       sh_code = Some ''uniform vec2 a, b; uniform float c[2];'', sh_source = Some ''other'',
       sh_handle = 7, sh_id = 2, sh_need_update = False\<rparr>
     = Inr [(''a'', GL_FLOAT_VEC2), (''b'', GL_FLOAT_VEC2), (''c[0]'', GL_FLOAT), (''c[1]'', GL_FLOAT)]"
proof -
  let ?a = "\<lparr>sh_target = GL_VERTEX_SHADER,
       sh_code = Some ''uniform vec2 a, b; uniform float c[2];'', sh_source = Some ''<string>'',
       sh_handle = - 1, sh_id = 1, sh_need_update = True\<rparr>"
  let ?b = "\<lparr>sh_target = GL_FRAGMENT_SHADER,
       sh_code = Some ''uniform vec2 a, b; uniform float c[2];'', sh_source = Some ''other'',
       sh_handle = 7, sh_id = 2, sh_need_update = False\<rparr>"
  have same: "sh_code ?a = sh_code ?b" by simp
  have first: "uniforms ?a = Inr [(''a'', GL_FLOAT_VEC2), (''b'', GL_FLOAT_VEC2),
      (''c[0]'', GL_FLOAT), (''c[1]'', GL_FLOAT)]"
    by (simp add: uniforms_def declarations_def two_declarations_eval)
  from properties_recomputed [of ?a ?a ?b] same have "uniforms ?a = uniforms ?b" by blast
  with first show ?thesis by simp
qed

section \<open>A keyword inside an identifier\<close>

lemma interior_uniform_eval:
  "decl_loop (finditer (re_type ''uniform'') (remove_comments ''myuniform float x;'')) []
     = Inr [(''x'', GL_FLOAT)]"
  by code_simp

lemma interior_attribute_eval:
  "decl_loop (finditer (re_type ''attribute'') (remove_comments ''myattribute float x;'')) []
     = Inr [(''x'', GL_FLOAT)]"
  by code_simp

lemma interior_uniform_match:
  "map whole (finditer (re_type ''uniform'') (remove_comments ''myuniform float x;''))
     = [''uniform float x;'']"
  by code_simp

lemma interior_attribute_match:
  "map whole (finditer (re_type ''attribute'') (remove_comments ''myattribute float x;''))
     = [''attribute float x;'']"
  by code_simp

text \<open>
  C10. The keyword need not start a token: in \<open>myuniform float x;\<close> the word \<open>uniform\<close> is
  only the end of the identifier \<open>myuniform\<close>, and \<open>uniforms\<close> still gives the entry
  \<open>("x", GL_FLOAT)\<close>; the one match of the declaration pattern is \<open>uniform float x;\<close>, which
  starts inside the identifier with its leading \<open>\s*\<close> matching nothing. The same holds
  of \<open>attributes\<close> on \<open>myattribute float x;\<close>.
\<close>

theorem keyword_inside_identifier:
  "uniforms (sh\<lparr>sh_code := Some ''myuniform float x;''\<rparr>) = Inr [(''x'', GL_FLOAT)]
   \<and> attributes (sh\<lparr>sh_code := Some ''myattribute float x;''\<rparr>) = Inr [(''x'', GL_FLOAT)]
   \<and> map whole (finditer (re_type ''uniform'') (remove_comments ''myuniform float x;''))
       = [''uniform float x;'']
   \<and> map whole (finditer (re_type ''attribute'') (remove_comments ''myattribute float x;''))
       = [''attribute float x;'']"
  by (simp add: uniforms_def attributes_def declarations_def interior_uniform_eval
      interior_attribute_eval interior_uniform_match interior_attribute_match)

section \<open>Line comments before a carriage return\<close>

text \<open>
  C2. On \<open>a // b\r\nc\<close> the stripper returns its input: the class \<open>[^\r\n]\<close> stops the
  comment before the carriage return, where \<open>$\<close> does not match (it matches at the end
  and before a line feed only), so the line comment is not removed.
\<close>

theorem remove_comments_crlf:
  "remove_comments (''a // b'' @ [CHR 0x0D, newline] @ ''c'')
     = ''a // b'' @ [CHR 0x0D, newline] @ ''c''"
  by code_simp

section \<open>Facts about the matcher\<close>

lemma many_set: "t \<in> set (many p s) \<longleftrightarrow> (\<exists>u. s = u @ t \<and> (\<forall>x\<in>set u. p x))"
  by (induction s) (auto simp: Cons_eq_append_conv)

lemma few_set: "t \<in> set (few p s) \<longleftrightarrow> (\<exists>u. s = u @ t \<and> (\<forall>x\<in>set u. p x))"
  by (induction s) (auto simp: Cons_eq_append_conv)

lemma many1_set: "t \<in> set (many1 p s) \<longleftrightarrow> (\<exists>u. u \<noteq> [] \<and> s = u @ t \<and> (\<forall>x\<in>set u. p x))"
  by (cases s) (auto simp: many_set Cons_eq_append_conv)

lemma in_ms_Lit: "(t, d) \<in> set (ms (Lit l) s c) \<longleftrightarrow> s = l @ t \<and> d = c"
proof
  assume "(t, d) \<in> set (ms (Lit l) s c)"
  then have a: "take (length l) s = l" and b: "t = drop (length l) s" and c: "d = c"
    by (auto split: if_splits)
  from a b have "s = l @ t" by (metis append_take_drop_id)
  with c show "s = l @ t \<and> d = c" by simp
next
  assume "s = l @ t \<and> d = c"
  then show "(t, d) \<in> set (ms (Lit l) s c)" by simp
qed

lemma in_ms_One: "(t, d) \<in> set (ms (One p) s c) \<longleftrightarrow> (\<exists>x. s = x # t \<and> p x \<and> d = c)"
  by (cases s) auto

lemma in_ms_Many: "(t, d) \<in> set (ms (Many p) s c) \<longleftrightarrow> d = c \<and> (\<exists>u. s = u @ t \<and> (\<forall>x\<in>set u. p x))"
  by (auto simp: many_set)

lemma in_ms_Many1:
  "(t, d) \<in> set (ms (Many1 p) s c) \<longleftrightarrow> d = c \<and> (\<exists>u. u \<noteq> [] \<and> s = u @ t \<and> (\<forall>x\<in>set u. p x))"
  by (auto simp: many1_set)

lemma in_ms_Few: "(t, d) \<in> set (ms (Few p) s c) \<longleftrightarrow> d = c \<and> (\<exists>u. s = u @ t \<and> (\<forall>x\<in>set u. p x))"
  by (auto simp: few_set)

lemma in_ms_Opt: "(t, d) \<in> set (ms (Opt r) s c) \<longleftrightarrow> (t, d) \<in> set (ms r s c) \<or> (t = s \<and> d = c)"
  by auto

lemma in_ms_Alt: "(t, d) \<in> set (ms (Alt r1 r2) s c) \<longleftrightarrow> (t, d) \<in> set (ms r1 s c) \<or> (t, d) \<in> set (ms r2 s c)"
  by auto

lemma in_ms_Seq:
  "(t, d) \<in> set (ms (Seq r1 r2) s c) \<longleftrightarrow> (\<exists>t' d'. (t', d') \<in> set (ms r1 s c) \<and> (t, d) \<in> set (ms r2 t' d'))"
  by auto

lemma in_ms_Grp:
  "(t, d) \<in> set (ms (Grp n r) s c) \<longleftrightarrow>
     (\<exists>d'. (t, d') \<in> set (ms r s c) \<and> d = (n, take (length s - length t) s) # d')"
  by auto

lemma in_ms_Eol: "(t, d) \<in> set (ms Eol s c) \<longleftrightarrow> t = s \<and> d = c \<and> (s = [] \<or> hd s = newline)"
  by (cases s) auto

lemmas in_ms = in_ms_Lit in_ms_One in_ms_Many in_ms_Many1 in_ms_Few in_ms_Opt in_ms_Alt in_ms_Seq
  in_ms_Grp in_ms_Eol

lemma ms_suffix: "(t, d) \<in> set (ms r s c) \<Longrightarrow> suffix t s"
proof (induction r arbitrary: s c t d)
  case (Seq r1 r2)
  then obtain t' d' where a: "(t', d') \<in> set (ms r1 s c)" and b: "(t, d) \<in> set (ms r2 t' d')"
    by (auto simp only: in_ms_Seq)
  from Seq.IH(1) [OF a] Seq.IH(2) [OF b] show ?case
    by (rule_tac suffix_order.trans)
qed (auto simp: in_ms suffix_def simp del: ms.simps)

lemma match_at_Some:
  assumes "match_at r s = Some (m, t)"
  shows "(t, groups m) \<in> set (ms r s [])" and "whole m @ t = s" and "length t \<le> length s"
proof -
  from assms obtain rest where ms: "ms r s [] = (t, groups m) # rest"
    and w: "whole m = take (length s - length t) s"
    by (auto simp: match_at_def split: list.splits)
  from ms show mem: "(t, groups m) \<in> set (ms r s [])" by simp
  from ms_suffix [OF mem] obtain u where "s = u @ t" by (auto simp: suffix_def)
  with w show "whole m @ t = s" and "length t \<le> length s" by auto
qed



section \<open>Facts about the comment stripper\<close>

lemma in_lit_few_lit:
  "(t, d) \<in> set (ms (seq [Lit a, Few p, Lit b]) s c)
     \<longleftrightarrow> d = c \<and> (\<exists>u. s = a @ u @ b @ t \<and> (\<forall>x\<in>set u. p x))"
  unfolding seq_def foldr.simps o_apply in_ms_Seq in_ms_Lit in_ms_Few
  by auto

lemma in_lit_many_eol:
  "(t, d) \<in> set (ms (seq [Lit a, Many p, Eol]) s c)
     \<longleftrightarrow> d = c \<and> (\<exists>u. s = a @ u @ t \<and> (\<forall>x\<in>set u. p x)) \<and> (t = [] \<or> hd t = newline)"
  unfolding seq_def foldr.simps o_apply in_ms_Seq in_ms_Lit in_ms_Many in_ms_Eol
  by auto


lemma comment_match_shape:
  assumes "match_at comment_pattern s = Some (m, t)"
  shows "groups m = [(1, whole m)] \<or> (groups m = [(2, whole m)] \<and> comment_text (whole m))"
proof -
  from match_at_Some [OF assms] have mem: "(t, groups m) \<in> set (ms comment_pattern s [])"
    and w: "whole m @ t = s" by auto
  from w have tk: "take (length s - length t) s = whole m" by auto
  from mem consider
      (quoted) "groups m = [(1, whole m)]"
    | (block) u where "groups m = [(2, whole m)]" "s = ''/*'' @ u @ ''*/'' @ t"
    | (line) u where "groups m = [(2, whole m)]" "s = ''//'' @ u @ t" "\<forall>x\<in>set u. not_cr_lf x"
    unfolding comment_pattern_def in_ms_Alt in_ms_Grp in_lit_few_lit in_lit_many_eol tk
    by blast
  then show ?thesis
  proof cases
    case quoted
    then show ?thesis by simp
  next
    case block
    from block(2) w have "whole m = ''/*'' @ u @ ''*/''" by simp
    with block(1) show ?thesis by (simp add: comment_text_def)
  next
    case line
    from line(2) w have "whole m = ''//'' @ u" by simp
    with line(1,3) show ?thesis by (auto simp: comment_text_def not_cr_lf_def newline_def)
  qed
qed




















section \<open>No empty match, no missing group\<close>

text \<open>
  The scan never meets an empty match of the patterns of the module, and the groups
  that the module reads with \<open>group_text\<close> are part of every match of their pattern; a
  match of the comment pattern has its first or its second group.
\<close>

lemma ms_min_len: "(t, d) \<in> set (ms r s c) \<Longrightarrow> length t + min_len r \<le> length s"
proof (induction r arbitrary: s c t d)
  case (Seq r1 r2)
  then obtain t' d' where a: "(t', d') \<in> set (ms r1 s c)" and b: "(t, d) \<in> set (ms r2 t' d')"
    by (auto simp only: in_ms_Seq)
  from Seq.IH(1) [OF a] Seq.IH(2) [OF b] show ?case by simp
next
  case (Alt r1 r2)
  then have "(t, d) \<in> set (ms r1 s c) \<or> (t, d) \<in> set (ms r2 s c)" by simp
  then show ?case
  proof
    assume "(t, d) \<in> set (ms r1 s c)"
    from Alt.IH(1) [OF this] show ?thesis by simp
  next
    assume "(t, d) \<in> set (ms r2 s c)"
    from Alt.IH(2) [OF this] show ?thesis by simp
  qed
next
  case (Opt r)
  from ms_suffix [OF Opt.prems] show ?case by (auto simp: suffix_def)
next
  case (Grp n r)
  then obtain d' where "(t, d') \<in> set (ms r s c)" by (auto simp only: in_ms_Grp)
  from Grp.IH [OF this] show ?case by simp
next
  case (Many1 p)
  then obtain u where "u \<noteq> []" and "s = u @ t" by (auto simp only: in_ms_Many1)
  then show ?case by (cases u) simp_all
qed (auto simp: in_ms simp del: ms.simps)

lemma ms_binds:
  "(t, d) \<in> set (ms r s c) \<Longrightarrow> map_of c n \<noteq> None \<or> binds n r \<Longrightarrow> map_of d n \<noteq> None"
proof (induction r arbitrary: s c t d)
  case (Seq r1 r2)
  then obtain t' d' where a: "(t', d') \<in> set (ms r1 s c)" and b: "(t, d) \<in> set (ms r2 t' d')"
    by (auto simp only: in_ms_Seq)
  show ?case
  proof (cases "map_of c n \<noteq> None \<or> binds n r1")
    case True
    from Seq.IH(1) [OF a True] have "map_of d' n \<noteq> None" .
    then show ?thesis using Seq.IH(2) [OF b] by blast
  next
    case False
    with Seq.prems(2) have "binds n r2" by simp
    then show ?thesis using Seq.IH(2) [OF b] by blast
  qed
next
  case (Alt r1 r2)
  then have "(t, d) \<in> set (ms r1 s c) \<or> (t, d) \<in> set (ms r2 s c)" by simp
  with Alt show ?case by auto
next
  case (Opt r)
  then have "(t, d) \<in> set (ms r s c) \<or> d = c" by auto
  with Opt show ?case by auto
next
  case (Grp k r)
  then obtain d' where a: "(t, d') \<in> set (ms r s c)"
    and d: "d = (k, take (length s - length t) s) # d'" by (auto simp only: in_ms_Grp)
  show ?case
  proof (cases "k = n")
    case True
    with d show ?thesis by simp
  next
    case False
    with Grp.prems(2) have "map_of c n \<noteq> None \<or> binds n r" by simp
    from Grp.IH [OF a this] d False show ?thesis by simp
  qed
qed (auto simp: in_ms simp del: ms.simps)

lemma match_consumes:
  assumes "match_at r s = Some (m, t)"
  shows "length t + min_len r \<le> length s"
  using ms_min_len [OF match_at_Some(1) [OF assms]] .

lemma match_binds:
  assumes "match_at r s = Some (m, t)" and "binds n r"
  shows "group m n \<noteq> None"
  using ms_binds [OF match_at_Some(1) [OF assms(1)], of n] assms(2) by (simp add: group_def)

lemma patterns_consume:
  "0 < min_len comment_pattern" "0 < min_len (re_type ''uniform'')"
  "0 < min_len (re_type ''attribute'')" "0 < min_len re_names"
  by (simp_all add: comment_pattern_def re_type_def re_names_def seq_def)

lemma patterns_bind:
  "binds 1 (re_type kw)" "binds 2 (re_type kw)" "binds 1 re_names"
  "binds 2 re_nvidia" "binds 3 re_nvidia" "binds 2 re_ati" "binds 3 re_ati"
  "binds 2 re_nouveau" "binds 4 re_nouveau"
  by (simp_all add: re_type_def re_names_def re_nvidia_def re_ati_def re_nouveau_def seq_def)

lemma comment_groups:
  assumes "match_at comment_pattern s = Some (m, t)"
  shows "group m 1 \<noteq> None \<or> group m 2 \<noteq> None"
  using comment_match_shape [OF assms] by (auto simp: group_def)

section \<open>Errors of the extraction\<close>



















section \<open>The window of the error display\<close>








section \<open>Facts about the greedy path\<close>

lemma fails_ms: "fails r s \<Longrightarrow> ms r s c = []"
  by (induction r arbitrary: s c) (auto split: list.splits)

lemma many_hd: "\<exists>rest. many p s = dropWhile p s # rest"
  by (induction s) auto

lemma few_hd: "\<exists>rest. few p s = s # rest"
  by (cases s) auto

lemma greedy_ms: "greedy r s c = Some x \<Longrightarrow> \<exists>rest. ms r s c = x # rest"
proof (induction r arbitrary: s c x)
  case (Lit l)
  then show ?case by (auto split: if_splits)
next
  case (One p)
  then show ?case by (auto split: list.splits if_splits)
next
  case (Many p)
  with many_hd [of p s] show ?case by auto
next
  case (Many1 p)
  then obtain y ys where s: "s = y # ys" and y: "p y" and x: "x = (dropWhile p ys, c)"
    by (auto split: list.splits if_splits)
  with many_hd [of p ys] show ?case by auto
next
  case (Few p)
  with few_hd [of p s] show ?case by auto
next
  case (Opt r)
  show ?case
  proof (cases "greedy r s c")
    case None
    with Opt.prems have "fails r s" and "x = (s, c)" by (auto split: if_splits)
    with fails_ms [of r s c] show ?thesis by simp
  next
    case (Some y)
    with Opt.prems have "x = y" by simp
    with Opt.IH [OF Some] show ?thesis by auto
  qed
next
  case (Alt r1 r2)
  show ?case
  proof (cases "greedy r1 s c")
    case None
    with Alt.prems have f: "fails r1 s" and g: "greedy r2 s c = Some x" by (auto split: if_splits)
    from Alt.IH(2) [OF g] fails_ms [OF f, of c] show ?thesis by simp
  next
    case (Some y)
    with Alt.prems have "x = y" by simp
    with Alt.IH(1) [OF Some] show ?thesis by auto
  qed
next
  case (Seq r1 r2)
  then obtain t d where a: "greedy r1 s c = Some (t, d)" and b: "greedy r2 t d = Some x"
    by (auto split: option.splits)
  from Seq.IH(1) [OF a] obtain rest1 where "ms r1 s c = (t, d) # rest1" by blast
  moreover from Seq.IH(2) [OF b] obtain rest2 where "ms r2 t d = x # rest2" by blast
  ultimately show ?case by simp
next
  case (Grp n r)
  then obtain t d where a: "greedy r s c = Some (t, d)"
    and x: "x = (t, (n, take (length s - length t) s) # d)"
    by (auto split: option.splits)
  from Grp.IH [OF a] obtain rest where "ms r s c = (t, d) # rest" by blast
  with x show ?case by simp
next
  case Eol
  then show ?case by (auto split: list.splits if_splits)
qed

lemma match_at_greedy:
  "greedy r s [] = Some (t, c) \<Longrightarrow>
   match_at r s = Some (\<lparr>whole = take (length s - length t) s, groups = c\<rparr>, t)"
  by (drule greedy_ms) (auto simp: match_at_def)

lemma match_at_fails: "fails r s \<Longrightarrow> match_at r s = None"
  by (simp add: match_at_def fails_ms)

lemma match_at_None_iff: "match_at r s = None \<longleftrightarrow> ms r s [] = []"
  by (auto simp: match_at_def split: list.splits)

section \<open>Parsing a diagnostic\<close>

lemma dropWhile_all: "list_all p u \<Longrightarrow> dropWhile p (u @ t) = dropWhile p t"
  by (simp add: list_all_iff)

lemma take_minus_dropWhile: "take (length s - length (dropWhile p s)) s = takeWhile p s"
proof -
  have "length s = length (takeWhile p s) + length (dropWhile p s)"
    by (metis length_append takeWhile_dropWhile_id)
  then have "length s - length (dropWhile p s) = length (takeWhile p s)" by simp
  then show ?thesis by (metis append_eq_conv_conj takeWhile_dropWhile_id)
qed

lemma greedy_Many1_app:
  "u \<noteq> [] \<Longrightarrow> list_all p u \<Longrightarrow> greedy (Many1 p) (u @ t) c = Some (dropWhile p t, c)"
  by (cases u) (auto simp: dropWhile_all)

lemma greedy_Lit_app: "greedy (Lit l) (l @ t) c = Some (t, c)"
  by simp

lemma greedy_nvidia:
  assumes "digits n" and "digits l" and "is_space w"
  shows "greedy re_nvidia (n @ ''('' @ l @ ''):'' @ w # msg) []
     = Some (dropWhile not_newline msg, [(3, takeWhile not_newline msg), (2, l), (1, n)])"
proof -
  from assms have n: "n \<noteq> []" "list_all is_digit n" and l: "l \<noteq> []" "list_all is_digit l"
    by (auto simp: digits_def)
  have p: "\<not> is_digit CHR ''(''" "\<not> is_digit CHR '')''" by (simp_all add: is_digit_def)
  show ?thesis
    unfolding re_nvidia_def seq_def
    using n l p assms(3)
    by (simp add: greedy_Many1_app take_minus_dropWhile del: greedy.simps(4))
qed


lemma greedy_ati:
  assumes "digits n" and "digits l" and "is_space w" and "is_space w'"
  shows "greedy re_ati (''ERROR:'' @ w # n @ '':'' @ l @ '':'' @ w' # msg) []
     = Some (dropWhile not_newline msg, [(3, takeWhile not_newline msg), (2, l), (1, n)])"
proof -
  from assms have n: "n \<noteq> []" "list_all is_digit n" and l: "l \<noteq> []" "list_all is_digit l"
    by (auto simp: digits_def)
  have p: "\<not> is_digit CHR '':''" by (simp add: is_digit_def)
  show ?thesis
    unfolding re_ati_def seq_def
    using n l p assms(3,4)
    by (simp add: greedy_Many1_app take_minus_dropWhile del: greedy.simps(4))
qed

lemma greedy_nouveau:
  assumes "digits n" and "digits l" and "digits k" and "is_space w"
  shows "greedy re_nouveau (n @ '':'' @ l @ ''('' @ k @ ''):'' @ w # msg) []
     = Some (dropWhile not_newline msg,
         [(4, takeWhile not_newline msg), (3, k), (2, l), (1, n)])"
proof -
  from assms have n: "n \<noteq> []" "list_all is_digit n" and l: "l \<noteq> []" "list_all is_digit l"
    and k: "k \<noteq> []" "list_all is_digit k"
    by (auto simp: digits_def)
  have p: "\<not> is_digit CHR '':''" "\<not> is_digit CHR ''(''" "\<not> is_digit CHR '')''"
    by (simp_all add: is_digit_def)
  show ?thesis
    unfolding re_nouveau_def seq_def
    using n l k p assms(4)
    by (simp add: greedy_Many1_app take_minus_dropWhile del: greedy.simps(4))
qed

lemma re_match_greedy:
  "greedy r s [] = Some (t, c) \<Longrightarrow> \<exists>m. re_match r s = Some m \<and> groups m = c"
  by (drule match_at_greedy) (simp add: re_match_def)

lemma re_match_None: "ms r s [] = [] \<Longrightarrow> re_match r s = None"
  by (simp add: re_match_def match_at_def)

lemma re_match_Some:
  "re_match r s = Some m \<Longrightarrow> \<exists>t. (t, groups m) \<in> set (ms r s [])"
  by (auto simp: re_match_def dest: match_at_Some(1))

text \<open>The digits that start a text are determined by the text.\<close>

lemma digits_prefix_unique:
  assumes "list_all is_digit u" and "list_all is_digit v" and "\<not> is_digit a" and "\<not> is_digit b"
    and "u @ a # s = v @ b # t"
  shows "u = v \<and> a = b \<and> s = t"
proof -
  from assms(1,3) have "takeWhile is_digit (u @ a # s) = u"
    by (simp add: list_all_iff takeWhile_append2 dropWhile_all)
  moreover from assms(2,4) have "takeWhile is_digit (v @ b # t) = v"
    by (simp add: list_all_iff takeWhile_append2)
  ultimately have "u = v" using assms(5) by simp
  with assms(5) show ?thesis by simp
qed

lemma in_nvidia:
  assumes "(t, d) \<in> set (ms re_nvidia e c)"
  shows "\<exists>n l w msg. digits n \<and> digits l \<and> is_space w \<and> e = n @ ''('' @ l @ ''):'' @ w # msg"
proof -
  from assms obtain n l w msg where "n \<noteq> []" "\<forall>x\<in>set n. is_digit x" "l \<noteq> []"
      "\<forall>x\<in>set l. is_digit x" "is_space w" "e = n @ ''('' @ l @ ''):'' @ w # msg"
    unfolding re_nvidia_def seq_def foldr.simps o_apply id_apply in_ms_Seq in_ms_Lit in_ms_Grp
      in_ms_Many1 in_ms_Many in_ms_One
    by (auto simp del: ms.simps)
  then show ?thesis by (auto simp: digits_def list_all_iff)
qed


lemma in_ati:
  assumes "(t, d) \<in> set (ms re_ati e c)"
  shows "\<exists>n l w w' msg. digits n \<and> digits l \<and> is_space w \<and> is_space w'
      \<and> e = ''ERROR:'' @ w # n @ '':'' @ l @ '':'' @ w' # msg"
proof -
  from assms obtain n l w w' msg where "n \<noteq> []" "\<forall>x\<in>set n. is_digit x" "l \<noteq> []"
      "\<forall>x\<in>set l. is_digit x" "is_space w" "is_space w'"
      "e = ''ERROR:'' @ w # n @ '':'' @ l @ '':'' @ w' # msg"
    unfolding re_ati_def seq_def foldr.simps o_apply id_apply in_ms_Seq in_ms_Lit in_ms_Grp
      in_ms_Many1 in_ms_Many in_ms_One
    by (auto simp del: ms.simps)
  then show ?thesis unfolding digits_def list_all_iff by blast
qed

lemma in_nouveau:
  assumes "(t, d) \<in> set (ms re_nouveau e c)"
  shows "\<exists>n l k w msg. digits n \<and> digits l \<and> digits k \<and> is_space w
      \<and> e = n @ '':'' @ l @ ''('' @ k @ ''):'' @ w # msg"
proof -
  from assms obtain n l k w msg where "n \<noteq> []" "\<forall>x\<in>set n. is_digit x" "l \<noteq> []"
      "\<forall>x\<in>set l. is_digit x" "k \<noteq> []" "\<forall>x\<in>set k. is_digit x" "is_space w"
      "e = n @ '':'' @ l @ ''('' @ k @ ''):'' @ w # msg"
    unfolding re_nouveau_def seq_def foldr.simps o_apply id_apply in_ms_Seq in_ms_Lit in_ms_Grp
      in_ms_Many1 in_ms_Many in_ms_One
    by (auto simp del: ms.simps)
  then show ?thesis unfolding digits_def list_all_iff by blast
qed


lemma nvidia_not_ati:
  "re_match re_nvidia (''ERROR:'' @ w # n @ '':'' @ l @ '':'' @ w' # msg) = None"
proof -
  have "fails re_nvidia (''ERROR:'' @ w # n @ '':'' @ l @ '':'' @ w' # msg)"
    unfolding re_nvidia_def seq_def by (simp add: is_digit_def)
  then show ?thesis by (simp add: re_match_def match_at_fails)
qed

lemma nvidia_not_nouveau:
  assumes "digits n"
  shows "re_match re_nvidia (n @ '':'' @ l @ ''('' @ k @ ''):'' @ w # msg) = None"
proof (rule re_match_None, rule ccontr)
  let ?e = "n @ '':'' @ l @ ''('' @ k @ ''):'' @ w # msg"
  assume "ms re_nvidia ?e [] \<noteq> []"
  then obtain t d where "(t, d) \<in> set (ms re_nvidia ?e [])"
    by (cases "ms re_nvidia ?e []") auto
  from in_nvidia [OF this] obtain n' l' w' msg' where n': "digits n'"
    and e: "?e = n' @ ''('' @ l' @ ''):'' @ w' # msg'" by blast
  have "\<not> is_digit CHR '':''" "\<not> is_digit CHR ''(''" by (simp_all add: is_digit_def)
  with digits_prefix_unique [of n n' "CHR '':''" "CHR ''(''"] assms n' e
  show False by (simp add: digits_def)
qed

lemma ati_not_nouveau:
  assumes "digits n"
  shows "re_match re_ati (n @ '':'' @ l @ ''('' @ k @ ''):'' @ w # msg) = None"
proof -
  from assms obtain x xs where n: "n = x # xs" and x: "is_digit x"
    by (cases n) (auto simp: digits_def)
  then have "x \<noteq> CHR ''E''" by (auto simp: is_digit_def)
  then have "fails re_ati (n @ '':'' @ l @ ''('' @ k @ ''):'' @ w # msg)"
    unfolding re_ati_def seq_def n by simp
  then show ?thesis by (simp add: re_match_def match_at_fails)
qed

lemma no_shape_no_match:
  "\<not> nvidia_shape e \<Longrightarrow> re_match re_nvidia e = None"
  "\<not> ati_shape e \<Longrightarrow> re_match re_ati e = None"
  "\<not> nouveau_shape e \<Longrightarrow> re_match re_nouveau e = None"
proof -
  show "re_match re_nvidia e = None" if "\<not> nvidia_shape e"
  proof (cases "re_match re_nvidia e")
    case (Some m)
    from re_match_Some [OF this] in_nvidia that show ?thesis
      unfolding nvidia_shape_def by blast
  qed simp
  show "re_match re_ati e = None" if "\<not> ati_shape e"
  proof (cases "re_match re_ati e")
    case (Some m)
    from re_match_Some [OF this] in_ati that show ?thesis
      unfolding ati_shape_def by blast
  qed simp
  show "re_match re_nouveau e = None" if "\<not> nouveau_shape e"
  proof (cases "re_match re_nouveau e")
    case (Some m)
    from re_match_Some [OF this] in_nouveau that show ?thesis
      unfolding nouveau_shape_def by blast
  qed simp
qed

text \<open>
  C4. A diagnostic of the format \<open>N(L): message\<close>, \<open>ERROR: S:L: message\<close> or
  \<open>S:L(C): message\<close> gives the number written at \<open>L\<close> and the message up to the end of its
  line; a diagnostic that has none of the three formats raises
  \<open>ValueError("Unknown GLSL error format")\<close>, the module's error for an unrecognised
  diagnostic.
\<close>

theorem parse_error_formats:
  "(digits n \<and> digits l \<and> is_space w \<longrightarrow>
      parse_error (n @ ''('' @ l @ ''):'' @ w # msg)
        = Inr (int (int_of l), takeWhile not_newline msg))
   \<and> (digits n \<and> digits l \<and> is_space w \<and> is_space w' \<longrightarrow>
      parse_error (''ERROR:'' @ w # n @ '':'' @ l @ '':'' @ w' # msg)
        = Inr (int (int_of l), takeWhile not_newline msg))
   \<and> (digits n \<and> digits l \<and> digits k \<and> is_space w \<longrightarrow>
      parse_error (n @ '':'' @ l @ ''('' @ k @ ''):'' @ w # msg)
        = Inr (int (int_of l), takeWhile not_newline msg))
   \<and> (\<not> nvidia_shape e \<and> \<not> ati_shape e \<and> \<not> nouveau_shape e \<longrightarrow>
      parse_error e = Inl (ValueError ''Unknown GLSL error format''))"
proof -
  have a: "parse_error (n @ ''('' @ l @ ''):'' @ w # msg)
        = Inr (int (int_of l), takeWhile not_newline msg)"
    if "digits n \<and> digits l \<and> is_space w"
  proof -
    from that greedy_nvidia [of n l w msg] re_match_greedy
    obtain m where "re_match re_nvidia (n @ ''('' @ l @ ''):'' @ w # msg) = Some m"
      and "groups m = [(3, takeWhile not_newline msg), (2, l), (1, n)]" by blast
    then show ?thesis by (simp add: parse_error_def group_text_def group_def)
  qed
  have b: "parse_error (''ERROR:'' @ w # n @ '':'' @ l @ '':'' @ w' # msg)
        = Inr (int (int_of l), takeWhile not_newline msg)"
    if "digits n \<and> digits l \<and> is_space w \<and> is_space w'"
  proof -
    from that greedy_ati [of n l w w' msg] re_match_greedy
    obtain m where "re_match re_ati (''ERROR:'' @ w # n @ '':'' @ l @ '':'' @ w' # msg) = Some m"
      and "groups m = [(3, takeWhile not_newline msg), (2, l), (1, n)]" by blast
    with nvidia_not_ati [of w n l w' msg] show ?thesis
      by (simp add: parse_error_def group_text_def group_def)
  qed
  have c: "parse_error (n @ '':'' @ l @ ''('' @ k @ ''):'' @ w # msg)
        = Inr (int (int_of l), takeWhile not_newline msg)"
    if "digits n \<and> digits l \<and> digits k \<and> is_space w"
  proof -
    from that greedy_nouveau [of n l k w msg] re_match_greedy
    obtain m where "re_match re_nouveau (n @ '':'' @ l @ ''('' @ k @ ''):'' @ w # msg) = Some m"
      and "groups m = [(4, takeWhile not_newline msg), (3, k), (2, l), (1, n)]" by blast
    with nvidia_not_nouveau [of n l k w msg] ati_not_nouveau [of n l k w msg] that show ?thesis
      by (simp add: parse_error_def group_text_def group_def)
  qed
  have d: "parse_error e = Inl (ValueError ''Unknown GLSL error format'')"
    if "\<not> nvidia_shape e \<and> \<not> ati_shape e \<and> \<not> nouveau_shape e"
    using that no_shape_no_match [of e] by (simp add: parse_error_def)
  from a b c d show ?thesis by blast
qed


lemma shape_chars:
  "nvidia_shape e \<Longrightarrow> CHR ''('' \<in> set e"
  "ati_shape e \<Longrightarrow> take 6 e = ''ERROR:''"
  "nouveau_shape e \<Longrightarrow> CHR '':'' \<in> set e"
  by (auto simp: nvidia_shape_def ati_shape_def nouveau_shape_def)

lemma example_digits: "digits ''0''" "digits ''7''" "digits ''131''" "digits ''28''" "digits ''16''"
  by (simp_all add: digits_def is_digit_def)

lemma example_values: "int_of ''7'' = 7" "int_of ''131'' = 131" "int_of ''28'' = 28"
  by (simp_all add: int_of_def digit_val_def)

theorem parse_error_formats_witness:
  "parse_error ''0(7): error C1008: undefined variable''
     = Inr (7, ''error C1008: undefined variable'')
   \<and> parse_error ''ERROR: 0:131: syntax error'' = Inr (131, ''syntax error'')
   \<and> parse_error ''0:28(16): error: syntax error'' = Inr (28, ''error: syntax error'')
   \<and> parse_error ''no line here'' = Inl (ValueError ''Unknown GLSL error format'')"
proof -
  have sp: "is_space CHR '' ''" by (simp add: is_space_def)
  have a: "parse_error ''0(7): error C1008: undefined variable''
     = Inr (7, ''error C1008: undefined variable'')"
    using parse_error_formats [where n = "''0''" and l = "''7''" and w = "CHR '' ''"
        and msg = "''error C1008: undefined variable''"] sp example_digits example_values
    by (simp add: not_newline_def newline_def)
  have b: "parse_error ''ERROR: 0:131: syntax error'' = Inr (131, ''syntax error'')"
    using parse_error_formats [where n = "''0''" and l = "''131''" and w = "CHR '' ''"
        and w' = "CHR '' ''" and msg = "''syntax error''"] sp example_digits example_values
    by (simp add: not_newline_def newline_def)
  have c: "parse_error ''0:28(16): error: syntax error'' = Inr (28, ''error: syntax error'')"
    using parse_error_formats [where n = "''0''" and l = "''28''" and k = "''16''"
        and w = "CHR '' ''" and msg = "''error: syntax error''"] sp example_digits example_values
    by (simp add: not_newline_def newline_def)
  have "\<not> nvidia_shape ''no line here''" "\<not> ati_shape ''no line here''"
      "\<not> nouveau_shape ''no line here''"
    using shape_chars [of "''no line here''"] by auto
  with parse_error_formats [where e = "''no line here''"]
  have d: "parse_error ''no line here'' = Inl (ValueError ''Unknown GLSL error format'')"
    by blast
  from a b c d show ?thesis by blast
qed

section \<open>The extraction on well-formed declarations\<close>

















































































end
